theory Spec2Isabelle
  imports Main "HOL-Library.Multiset"
begin

section \<open>The dataframe engine, as far as the notebook calls it\<close>

text \<open>
  The notebook \<^verbatim>\<open>notebooks/processing_1.ipynb\<close> is glue around a dataframe engine:
  \<^verbatim>\<open>withColumn\<close>, \<^verbatim>\<open>col(..).cast(..)\<close>, \<^verbatim>\<open>withColumnRenamed\<close>, \<^verbatim>\<open>unionByName\<close>,
  \<^verbatim>\<open>count\<close>, \<^verbatim>\<open>columns\<close>. This section writes those operations out as functions on an
  explicit table (a schema and a list of rows); the next section is the notebook's own code.

  The column types are the five that the notebook's printed schemas show
  (\<^verbatim>\<open>integer\<close>, \<^verbatim>\<open>long\<close>, \<^verbatim>\<open>double\<close>, \<^verbatim>\<open>string\<close>, \<^verbatim>\<open>timestamp_ntz\<close>).
\<close>

datatype DataType = IntegerType | LongType | DoubleType | StringType | TimestampNTZType

text \<open>
  The failures that the calls of the notebook can raise: the engine's analysis errors
  (a column name that resolves to no column or to several, a cast between types that
  have no conversion, a name-based union of tables whose columns do not line up), the
  failures of reading a file (a path the engine's file listing hides, a file that is not
  readable as parquet), the failure of a job the engine runs (counting, clearing the
  output directory, writing), and Python's \<^verbatim>\<open>FileNotFoundError\<close> for listing a
  directory that does not exist and \<^verbatim>\<open>AttributeError\<close> for a method call on
  \<^verbatim>\<open>None\<close>.
\<close>

datatype error =
    UNRESOLVED_COLUMN string
  | AMBIGUOUS_REFERENCE string
  | CANNOT_CAST DataType DataType
  | COLUMN_ALREADY_EXISTS
  | NUM_COLUMNS_MISMATCH
  | INCOMPATIBLE_COLUMN_TYPE string
  | UNABLE_TO_INFER_SCHEMA string
  | CANNOT_READ_FILE string
  | JobFailed string
  | FileNotFoundError string
  | AttributeError string

definition thenDo :: "error + 'a \<Rightarrow> ('a \<Rightarrow> error + 'b) \<Rightarrow> error + 'b" where
  "thenDo r f = (case r of Inl e \<Rightarrow> Inl e | Inr x \<Rightarrow> f x)"

text \<open>
  A session carries its configuration and the engine's evaluation of a cast between two
  different types. That evaluation (integer narrowing, rounding to a double, parsing a
  string) is a parameter \<open>convert\<close>: cell values are an abstract type \<open>'v\<close> and no
  property below depends on how a value is converted.
\<close>

record 'v SparkSession =
  appName :: string
  conf :: "(string \<times> string) list"
  convert :: "DataType \<Rightarrow> DataType \<Rightarrow> 'v \<Rightarrow> 'v"

text \<open>
  Column names are resolved with the session's resolver: exact comparison when
  \<^verbatim>\<open>spark.sql.caseSensitive\<close> is set to true, comparison up to the case of the ASCII
  letters otherwise (the engine's default).
\<close>

definition caseSensitive :: "'v SparkSession \<Rightarrow> bool" where
  "caseSensitive spark = (map_of (conf spark) ''spark.sql.caseSensitive'' = Some ''true'')"

definition toLowerCase :: "string \<Rightarrow> string" where
  "toLowerCase s =
     map (\<lambda>c. case map_of (zip ''ABCDEFGHIJKLMNOPQRSTUVWXYZ''
                                 ''abcdefghijklmnopqrstuvwxyz'') c of
                Some l \<Rightarrow> l
              | None \<Rightarrow> c) s"

definition resolver :: "'v SparkSession \<Rightarrow> string \<Rightarrow> string \<Rightarrow> bool" where
  "resolver spark a b =
     (if caseSensitive spark then a = b else toLowerCase a = toLowerCase b)"

text \<open>
  A dataframe: the session it belongs to, its schema (the fields in order, each a name and
  a type) and its rows (each a list of cells, one per field).
\<close>

record 'v DataFrame =
  sparkSession :: "'v SparkSession"
  schema :: "(string \<times> DataType) list"
  rows :: "'v list list"

definition columns :: "'v DataFrame \<Rightarrow> string list" where
  "columns df = map fst (schema df)"

definition count :: "'v DataFrame \<Rightarrow> nat" where
  "count df = length (rows df)"

text \<open>
  The output attributes of a dataframe: for the field at position \<open>i\<close>, its name, its type
  and the function that reads its cell in a row. A projection \<open>select\<close> evaluates a list
  of such named expressions on every row.
\<close>

type_synonym 'v attribute = "string \<times> DataType \<times> ('v list \<Rightarrow> 'v)"

definition attributes :: "'v DataFrame \<Rightarrow> 'v attribute list" where
  "attributes df = map (\<lambda>(i, (n, t)). (n, t, \<lambda>r. r ! i)) (enumerate 0 (schema df))"

definition select :: "'v DataFrame \<Rightarrow> 'v attribute list \<Rightarrow> 'v DataFrame" where
  "select df es =
     df\<lparr>schema := map (\<lambda>(n, t, f). (n, t)) es,
        rows := map (\<lambda>r. map (\<lambda>(n, t, f). f r) es) (rows df)\<rparr>"

text \<open>
  Column expressions, as the notebook builds them: \<^verbatim>\<open>col("VendorID")\<close> is \<open>col ''VendorID''\<close>
  and \<^verbatim>\<open>col("VendorID").cast("int")\<close> is \<open>cast (col ''VendorID'') IntegerType\<close>
  (the type names \<^verbatim>\<open>"int"\<close> and \<^verbatim>\<open>"double"\<close> denote \<open>IntegerType\<close> and \<open>DoubleType\<close>).
\<close>

datatype Column = col string | cast Column DataType

definition numeric :: "DataType \<Rightarrow> bool" where
  "numeric t = (t = IntegerType \<or> t = LongType \<or> t = DoubleType)"

text \<open>
  Which casts the engine accepts, on the five types: a type to itself, anything to a
  string, a string to anything, a numeric type to a numeric type. There is no cast between
  \<open>TimestampNTZType\<close> and a numeric type.
\<close>

definition canCast :: "DataType \<Rightarrow> DataType \<Rightarrow> bool" where
  "canCast from to =
     (from = to \<or> to = StringType \<or> from = StringType \<or> (numeric from \<and> numeric to))"

text \<open>A cast to the type a value already has leaves the value as it is.\<close>

definition castValue :: "'v SparkSession \<Rightarrow> DataType \<Rightarrow> DataType \<Rightarrow> 'v \<Rightarrow> 'v" where
  "castValue spark from to v = (if from = to then v else convert spark from to v)"

text \<open>
  Analysis of a column expression against a dataframe: its type and its value on a row,
  or the analysis error. A name must resolve to exactly one column.
\<close>

fun analyze :: "'v DataFrame \<Rightarrow> Column \<Rightarrow> error + DataType \<times> ('v list \<Rightarrow> 'v)" where
  "analyze df (col name) =
     (case filter (\<lambda>(n, t, f). resolver (sparkSession df) n name) (attributes df) of
        [] \<Rightarrow> Inl (UNRESOLVED_COLUMN name)
      | [(n, t, f)] \<Rightarrow> Inr (t, f)
      | _ \<Rightarrow> Inl (AMBIGUOUS_REFERENCE name))"
| "analyze df (cast c to) =
     (case analyze df c of
        Inl e \<Rightarrow> Inl e
      | Inr (from, f) \<Rightarrow>
          if canCast from to
          then Inr (to, \<lambda>r. castValue (sparkSession df) from to (f r))
          else Inl (CANNOT_CAST from to))"

text \<open>
  \<^verbatim>\<open>df.withColumn(colName, c)\<close>: every column whose name resolves to \<open>colName\<close> is
  replaced, in place, by the new column under the name \<open>colName\<close>; when there is none the
  new column is appended.
\<close>

definition withColumn :: "'v DataFrame \<Rightarrow> string \<Rightarrow> Column \<Rightarrow> error + 'v DataFrame" where
  "withColumn df colName c =
     (case analyze df c of
        Inl e \<Rightarrow> Inl e
      | Inr (to, g) \<Rightarrow>
          Inr (select df
            (map (\<lambda>(n, t, f). if resolver (sparkSession df) n colName
                              then (colName, to, g) else (n, t, f)) (attributes df)
             @ (if list_ex (\<lambda>n. resolver (sparkSession df) n colName) (columns df)
                then [] else [(colName, to, g)]))))"

text \<open>
  \<^verbatim>\<open>df.withColumnRenamed(existing, new)\<close>: every column whose name resolves to
  \<open>existing\<close> is renamed; a no-op when the schema has no such column.
\<close>

definition withColumnRenamed :: "'v DataFrame \<Rightarrow> string \<Rightarrow> string \<Rightarrow> 'v DataFrame" where
  "withColumnRenamed df existing new =
     (if list_ex (\<lambda>n. resolver (sparkSession df) n existing) (columns df)
      then select df
             (map (\<lambda>(n, t, f). if resolver (sparkSession df) n existing
                               then (new, t, f) else (n, t, f)) (attributes df))
      else df)"

text \<open>
  \<^verbatim>\<open>df.unionByName(other)\<close>. Both sides must be free of duplicate column names (compared
  in lower case unless the session is case sensitive). Every column of the left side is
  paired with the first column of \<open>other\<close> that its name resolves to; a left column with no
  partner, or a column of \<open>other\<close> that no left column resolves to, is an analysis error.
  Each pair is brought to the wider of its two types, and a pair with no common type is
  an analysis error. The result has the left side's column names and order, the left rows
  followed by the rows of \<open>other\<close> rearranged into that order.
\<close>

definition findWiderType :: "DataType \<Rightarrow> DataType \<Rightarrow> DataType option" where
  "findWiderType a b =
     (if a = b then Some a
      else if numeric a \<and> numeric b
        then Some (if a = DoubleType \<or> b = DoubleType then DoubleType else LongType)
      else if a = StringType \<or> b = StringType then Some StringType
      else None)"

fun collect :: "(error + 'a) list \<Rightarrow> error + 'a list" where
  "collect [] = Inr []"
| "collect (r # rs) =
     (case r of
        Inl e \<Rightarrow> Inl e
      | Inr x \<Rightarrow> (case collect rs of Inl e \<Rightarrow> Inl e | Inr xs \<Rightarrow> Inr (x # xs)))"

definition checkColumnNameDuplication :: "'v SparkSession \<Rightarrow> string list \<Rightarrow> bool" where
  "checkColumnNameDuplication spark names =
     distinct (if caseSensitive spark then names else map toLowerCase names)"

definition unionByName :: "'v DataFrame \<Rightarrow> 'v DataFrame \<Rightarrow> error + 'v DataFrame" where
  "unionByName df other =
     (let spark = sparkSession df in
      if \<not> checkColumnNameDuplication spark (columns df)
         \<or> \<not> checkColumnNameDuplication spark (columns other)
      then Inl COLUMN_ALREADY_EXISTS
      else
        thenDo (collect (map (\<lambda>(n, t, f).
                  case find (\<lambda>(m, t', g). resolver spark n m) (attributes other) of
                    None \<Rightarrow> Inl (UNRESOLVED_COLUMN n)
                  | Some a \<Rightarrow> Inr a) (attributes df))) (\<lambda>rightProjectList.
        if list_ex (\<lambda>m. \<not> list_ex (\<lambda>n. resolver spark n m) (columns df)) (columns other)
        then Inl NUM_COLUMNS_MISMATCH
        else
          thenDo (collect (map (\<lambda>((n, t, f), (m, t', g)).
                    case findWiderType t t' of
                      None \<Rightarrow> Inl (INCOMPATIBLE_COLUMN_TYPE n)
                    | Some w \<Rightarrow> Inr ((n, w, \<lambda>r. castValue spark t w (f r)),
                                     (n, w, \<lambda>r. castValue spark t' w (g r))))
                  (zip (attributes df) rightProjectList))) (\<lambda>widened.
          Inr (df\<lparr>schema := map (\<lambda>((n, w, f), _). (n, w)) widened,
                  rows := rows (select df (map fst widened))
                          @ rows (select other (map snd widened))\<rparr>))))"

section \<open>The notebook\<close>

text \<open>
  \<^verbatim>\<open>standardize_schema(df)\<close>: five casts in place and one rename, in the order of the
  source. An error of a step (an exception in the source) ends the function.
\<close>

definition standardize_schema :: "'v DataFrame \<Rightarrow> error + 'v DataFrame" where
  "standardize_schema df =
     thenDo (withColumn df ''VendorID'' (cast (col ''VendorID'') IntegerType)) (\<lambda>df1.
     thenDo (withColumn df1 ''passenger_count'' (cast (col ''passenger_count'') DoubleType)) (\<lambda>df2.
     thenDo (withColumn df2 ''RatecodeID'' (cast (col ''RatecodeID'') DoubleType)) (\<lambda>df3.
     thenDo (withColumn df3 ''PULocationID'' (cast (col ''PULocationID'') IntegerType)) (\<lambda>df4.
     thenDo (withColumn df4 ''DOLocationID'' (cast (col ''DOLocationID'') IntegerType)) (\<lambda>df5.
     Inr (withColumnRenamed df5 ''Airport_fee'' ''airport_fee''))))))"


text \<open>
  The accumulation loop of the notebook:
  \<^verbatim>\<open>sdf = None
  for file in parquet_files:
      df = spark.read.parquet(file)
      standardized_df = standardize_schema(df)
      if sdf is None: sdf = standardized_df
      else: sdf = sdf.unionByName(standardized_df)\<close>
  The function takes the tables already read, in the order of the files; \<open>None\<close> is the
  unset accumulator.
\<close>

fun accumulate :: "'v DataFrame option \<Rightarrow> 'v DataFrame list \<Rightarrow> error + 'v DataFrame option" where
  "accumulate sdf [] = Inr sdf"
| "accumulate sdf (df # dfs) =
     (case standardize_schema df of
        Inl e \<Rightarrow> Inl e
      | Inr standardized_df \<Rightarrow>
          (case sdf of
             None \<Rightarrow> accumulate (Some standardized_df) dfs
           | Some acc \<Rightarrow>
               (case unionByName acc standardized_df of
                  Inl e \<Rightarrow> Inl e
                | Inr u \<Rightarrow> accumulate (Some u) dfs)))"

text \<open>
  The run of the whole notebook, cell after cell, on a world. The world holds what the run
  reads and changes outside Python: the process's active session (\<open>None\<close> when there is
  none), the landing directory (\<open>None\<close> when the path \<^verbatim>\<open>data_path\<close> does not exist;
  otherwise its entries, each a name with the table the file holds, \<open>None\<close> for content
  that is not readable as parquet), the output directory, and what the
  environment does to the three jobs of the run that touch storage or the cluster: the
  count of cell 11, the clearing of the output directory and the write of cell 13 (each
  \<open>None\<close> when the job completes, otherwise the error it ends with).
\<close>

type_synonym 'v parquet = "(string \<times> DataType) list \<times> 'v list list"

record 'v World =
  engine :: "DataType \<Rightarrow> DataType \<Rightarrow> 'v \<Rightarrow> 'v"
  session :: "'v SparkSession option"
  landing :: "(string \<times> 'v parquet option) list option"
  raw :: "'v parquet option"
  countJob :: "error option"
  clearOutput :: "error option"
  writeJob :: "error option"

definition endswith :: "string \<Rightarrow> string \<Rightarrow> bool" where
  "endswith s suffix = (take (length suffix) (rev s) = rev suffix)"

definition startswith :: "string \<Rightarrow> string \<Rightarrow> bool" where
  "startswith s prefix = (take (length prefix) s = prefix)"

text \<open>
  \<^verbatim>\<open>SparkSession.builder.appName(..).config(..).config(..).config(..).getOrCreate()\<close>.
  The builder's options are the application name and the three settings of the source
  (the Python value \<^verbatim>\<open>True\<close> is stored as \<^verbatim>\<open>true\<close>). With no active session a new
  one is created from them; an active session is returned as it is, with the options
  set on top of its configuration, so its other settings (the case sensitivity among
  them) stay as they were.
\<close>

definition builderOptions :: "(string \<times> string) list" where
  "builderOptions =
     [(''spark.sql.session.timeZone'', ''Etc/UTC''),
      (''spark.sql.parquet.cacheMetadata'', ''true''),
      (''spark.sql.repl.eagerEval.enabled'', ''true''),
      (''spark.app.name'', ''MAST30034 Project 1'')]"

definition getOrCreate :: "'v World \<Rightarrow> 'v SparkSession" where
  "getOrCreate w =
     (case session w of
        None \<Rightarrow> \<lparr>appName = ''MAST30034 Project 1'', conf = builderOptions, convert = engine w\<rparr>
      | Some active \<Rightarrow> active\<lparr>conf := builderOptions @ conf active\<rparr>)"

text \<open>
  \<^verbatim>\<open>spark.read.parquet(file)\<close>. The engine's file listing leaves out a name that starts
  with \<^verbatim>\<open>.\<close>, or with \<^verbatim>\<open>_\<close> and has no \<^verbatim>\<open>=\<close> in it (the names that start with
  \<^verbatim>\<open>_metadata\<close> or \<^verbatim>\<open>_common_metadata\<close> apart); reading such a path finds no file and
  fails. Content that is not parquet fails, and so does a schema with a duplicate column
  name (compared in lower case unless the session is case sensitive).
\<close>

definition shouldFilterOutPathName :: "string \<Rightarrow> bool" where
  "shouldFilterOutPathName pathName =
     (((startswith pathName ''_'' \<and> CHR ''='' \<notin> set pathName)
         \<or> startswith pathName ''.'' \<or> endswith pathName ''._COPYING_'')
      \<and> \<not> (startswith pathName ''_common_metadata'' \<or> startswith pathName ''_metadata''))"

definition read_parquet :: "'v SparkSession \<Rightarrow> string \<times> 'v parquet option \<Rightarrow> error + 'v DataFrame" where
  "read_parquet spark file =
     (case file of (name, content) \<Rightarrow>
        if shouldFilterOutPathName name then Inl (UNABLE_TO_INFER_SCHEMA name)
        else case content of
               None \<Rightarrow> Inl (CANNOT_READ_FILE name)
             | Some (sch, cells) \<Rightarrow>
                 if checkColumnNameDuplication spark (map fst sch)
                 then Inr \<lparr>sparkSession = spark, schema = sch, rows = cells\<rparr>
                 else Inl COLUMN_ALREADY_EXISTS)"

text \<open>
  \<^verbatim>\<open>[os.path.join(data_path, f) for f in os.listdir(data_path) if f.endswith('.parquet')]\<close>:
  the entries of the landing directory whose name ends with \<^verbatim>\<open>.parquet\<close>, each with
  the content found at its path; \<^verbatim>\<open>os.listdir\<close> raises when the directory does not
  exist. \<open>readAll\<close> reads the listed files in order, as the loops of cells 7 and 10 do.
\<close>

definition parquet_files :: "'v World \<Rightarrow> error + (string \<times> 'v parquet option) list" where
  "parquet_files w =
     (case landing w of
        None \<Rightarrow> Inl (FileNotFoundError ''data_path'')
      | Some entries \<Rightarrow> Inr (filter (\<lambda>(f, content). endswith f ''.parquet'') entries))"

definition readAll :: "'v SparkSession \<Rightarrow> 'v World \<Rightarrow> error + 'v DataFrame list" where
  "readAll spark w =
     thenDo (parquet_files w) (\<lambda>files. collect (map (read_parquet spark) files))"

text \<open>
  The cells in order. Cell 5 creates the session. Cell 7 lists the landing directory, reads
  every parquet file and prints its schema. Cell 10 lists the directory again and reads
  every file again inside its loop; the world does not change during the run, so the
  listing and each read return what they returned in cell 7 (where a missing directory or
  a file that cannot be read has already ended the run), and the loop is \<open>accumulate\<close> on the tables read; the
  call \<^verbatim>\<open>sdf.printSchema()\<close> after the loop raises when the accumulator is still
  \<open>None\<close>. Cell 11 counts the rows. Cell 13 writes with \<^verbatim>\<open>mode='overwrite'\<close>: the
  output directory is cleared, then the write job runs, so a write job that fails leaves
  the directory empty. Cell 14 stops the session. An exception ends the run at the cell
  that raises it: the notebook has no \<^verbatim>\<open>try\<close>, so the cells after it are not reached.
\<close>

definition pipeline :: "'v World \<Rightarrow> error option \<times> 'v World" where
  "pipeline w =
     (let spark = getOrCreate w;
          w1 = w\<lparr>session := Some spark\<rparr>
      in case readAll spark w1 of
           Inl e \<Rightarrow> (Some e, w1)
         | Inr dfs \<Rightarrow>
             (case accumulate None dfs of
                Inl e \<Rightarrow> (Some e, w1)
              | Inr None \<Rightarrow> (Some (AttributeError ''printSchema''), w1)
              | Inr (Some sdf) \<Rightarrow>
                  (case countJob w1 of
                     Some e \<Rightarrow> (Some e, w1)
                   | None \<Rightarrow>
                       (case clearOutput w1 of
                          Some e \<Rightarrow> (Some e, w1)
                        | None \<Rightarrow>
                            (case writeJob w1 of
                               Some e \<Rightarrow> (Some e, w1\<lparr>raw := None\<rparr>)
                             | None \<Rightarrow>
                                 (None, w1\<lparr>raw := Some (schema sdf, rows sdf),
                                           session := None\<rparr>))))))"

section \<open>Vocabulary of the proofs\<close>

text \<open>
  The five coercion rules of \<^verbatim>\<open>standardize_schema\<close>, in the order of the source: the
  column and the type it is cast to.
\<close>

definition coercions :: "(string \<times> DataType) list" where
  "coercions = [(''VendorID'', IntegerType), (''passenger_count'', DoubleType),
                (''RatecodeID'', DoubleType), (''PULocationID'', IntegerType),
                (''DOLocationID'', IntegerType)]"

text \<open>
  The resolver compares normalised names: \<open>resolver spark a b\<close> holds exactly when the
  keys of \<open>a\<close> and \<open>b\<close> are equal.
\<close>

definition key :: "'v SparkSession \<Rightarrow> string \<Rightarrow> string" where
  "key spark n = (if caseSensitive spark then n else toLowerCase n)"


definition castable :: "'v SparkSession \<Rightarrow> string \<Rightarrow> DataType \<Rightarrow> (string \<times> DataType) list \<Rightarrow> bool" where
  "castable spark c to fs =
     (case filter (\<lambda>(n, t). resolver spark n c) fs of
        [(n, t)] \<Rightarrow> canCast t to
      | _ \<Rightarrow> False)"

text \<open>
  What one cast step and the rename do to a single attribute, and a cast step on a list of
  attributes with its three failures.
\<close>

definition field :: "'v attribute \<Rightarrow> string \<times> DataType" where
  "field a = (fst a, fst (snd a))"

definition recast :: "'v SparkSession \<Rightarrow> string \<Rightarrow> DataType \<Rightarrow> 'v attribute \<Rightarrow> 'v attribute" where
  "recast spark c to = (\<lambda>(n, t, f).
     if resolver spark n c then (c, to, \<lambda>r. castValue spark t to (f r)) else (n, t, f))"

definition rename :: "'v SparkSession \<Rightarrow> string \<Rightarrow> string \<Rightarrow> 'v attribute \<Rightarrow> 'v attribute" where
  "rename spark existing new = (\<lambda>(n, t, f).
     if resolver spark n existing then (new, t, f) else (n, t, f))"

definition castStep :: "'v SparkSession \<Rightarrow> string \<Rightarrow> DataType \<Rightarrow> 'v attribute list \<Rightarrow> error + 'v attribute list" where
  "castStep spark c to es =
     (case filter (\<lambda>(n, t). resolver spark n c) (map field es) of
        [] \<Rightarrow> Inl (UNRESOLVED_COLUMN c)
      | [(n, t)] \<Rightarrow> if canCast t to then Inr (map (recast spark c to) es) else Inl (CANNOT_CAST t to)
      | _ \<Rightarrow> Inl (AMBIGUOUS_REFERENCE c))"

definition standardizeAttrs :: "'v SparkSession \<Rightarrow> 'v attribute list \<Rightarrow> error + 'v attribute list" where
  "standardizeAttrs spark es =
     thenDo (castStep spark ''VendorID'' IntegerType es) (\<lambda>es1.
     thenDo (castStep spark ''passenger_count'' DoubleType es1) (\<lambda>es2.
     thenDo (castStep spark ''RatecodeID'' DoubleType es2) (\<lambda>es3.
     thenDo (castStep spark ''PULocationID'' IntegerType es3) (\<lambda>es4.
     thenDo (castStep spark ''DOLocationID'' IntegerType es4) (\<lambda>es5.
     Inr (map (rename spark ''Airport_fee'' ''airport_fee'') es5))))))"

text \<open>
  An attribute transformer is \<open>lifted\<close> when it acts on the field and on the value that
  the attribute reads, whatever row that value is read from.
\<close>

definition lifted :: "('v attribute \<Rightarrow> 'v attribute) \<Rightarrow> bool" where
  "lifted h = (\<exists>a b. \<forall>n t f. h (n, t, f) = (fst (a (n, t)), snd (a (n, t)), \<lambda>r. b (n, t) (f r)))"

text \<open>
  The closed form of the six steps on one attribute: the field it becomes and the value
  it then holds.
\<close>

definition stdField :: "'v SparkSession \<Rightarrow> string \<times> DataType \<Rightarrow> string \<times> DataType" where
  "stdField spark = (\<lambda>(n, t).
     if resolver spark n ''VendorID'' then (''VendorID'', IntegerType)
     else if resolver spark n ''passenger_count'' then (''passenger_count'', DoubleType)
     else if resolver spark n ''RatecodeID'' then (''RatecodeID'', DoubleType)
     else if resolver spark n ''PULocationID'' then (''PULocationID'', IntegerType)
     else if resolver spark n ''DOLocationID'' then (''DOLocationID'', IntegerType)
     else if resolver spark n ''Airport_fee'' then (''airport_fee'', t)
     else (n, t))"

definition stdValue :: "'v SparkSession \<Rightarrow> string \<times> DataType \<Rightarrow> 'v \<Rightarrow> 'v" where
  "stdValue spark = (\<lambda>(n, t) v.
     if resolver spark n ''VendorID'' then castValue spark t IntegerType v
     else if resolver spark n ''passenger_count'' then castValue spark t DoubleType v
     else if resolver spark n ''RatecodeID'' then castValue spark t DoubleType v
     else if resolver spark n ''PULocationID'' then castValue spark t IntegerType v
     else if resolver spark n ''DOLocationID'' then castValue spark t IntegerType v
     else v)"

definition stdAttr :: "'v SparkSession \<Rightarrow> 'v attribute \<Rightarrow> 'v attribute" where
  "stdAttr spark = (\<lambda>(n, t, f).
     (fst (stdField spark (n, t)), snd (stdField spark (n, t)), \<lambda>r. stdValue spark (n, t) (f r)))"

section \<open>Example tables\<close>

text \<open>
  The two schemas that the notebook prints for the files of its landing directory
  (\<^verbatim>\<open>yellow_2022_12\<close> and \<^verbatim>\<open>yellow_2023_04\<close>), each with two rows. In the examples a
  cell is an integer and a conversion between two types keeps it, as it does for the small
  whole numbers used here.
\<close>

definition yellow_2022_12 :: "int parquet" where
  "yellow_2022_12 =
     ([(''VendorID'', LongType), (''tpep_pickup_datetime'', TimestampNTZType),
       (''tpep_dropoff_datetime'', TimestampNTZType), (''passenger_count'', DoubleType),
       (''trip_distance'', DoubleType), (''RatecodeID'', DoubleType),
       (''store_and_fwd_flag'', StringType), (''PULocationID'', LongType),
       (''DOLocationID'', LongType), (''payment_type'', LongType),
       (''fare_amount'', DoubleType), (''extra'', DoubleType), (''mta_tax'', DoubleType),
       (''tip_amount'', DoubleType), (''tolls_amount'', DoubleType),
       (''improvement_surcharge'', DoubleType), (''total_amount'', DoubleType),
       (''congestion_surcharge'', DoubleType), (''airport_fee'', DoubleType)],
      [[2, 500, 530, 1, 7, 1, 0, 161, 237, 1, 30, 1, 0, 5, 0, 1, 40, 2, 0],
       [1, 600, 615, 3, 2, 1, 0, 79, 107, 2, 11, 3, 0, 0, 0, 1, 16, 2, 0]])"

definition yellow_2023_04 :: "int parquet" where
  "yellow_2023_04 =
     ([(''VendorID'', IntegerType), (''tpep_pickup_datetime'', TimestampNTZType),
       (''tpep_dropoff_datetime'', TimestampNTZType), (''passenger_count'', LongType),
       (''trip_distance'', DoubleType), (''RatecodeID'', LongType),
       (''store_and_fwd_flag'', StringType), (''PULocationID'', IntegerType),
       (''DOLocationID'', IntegerType), (''payment_type'', LongType),
       (''fare_amount'', DoubleType), (''extra'', DoubleType), (''mta_tax'', DoubleType),
       (''tip_amount'', DoubleType), (''tolls_amount'', DoubleType),
       (''improvement_surcharge'', DoubleType), (''total_amount'', DoubleType),
       (''congestion_surcharge'', DoubleType), (''Airport_fee'', DoubleType)],
      [[1, 100, 160, 1, 3, 1, 0, 142, 236, 1, 14, 1, 0, 3, 0, 1, 20, 2, 0],
       [2, 200, 290, 2, 9, 2, 0, 132, 48, 2, 52, 0, 0, 0, 6, 1, 61, 2, 1]])"

text \<open>The schema that the notebook prints for the combined table.\<close>

definition standardSchema :: "(string \<times> DataType) list" where
  "standardSchema =
     [(''VendorID'', IntegerType), (''tpep_pickup_datetime'', TimestampNTZType),
      (''tpep_dropoff_datetime'', TimestampNTZType), (''passenger_count'', DoubleType),
      (''trip_distance'', DoubleType), (''RatecodeID'', DoubleType),
      (''store_and_fwd_flag'', StringType), (''PULocationID'', IntegerType),
      (''DOLocationID'', IntegerType), (''payment_type'', LongType),
      (''fare_amount'', DoubleType), (''extra'', DoubleType), (''mta_tax'', DoubleType),
      (''tip_amount'', DoubleType), (''tolls_amount'', DoubleType),
      (''improvement_surcharge'', DoubleType), (''total_amount'', DoubleType),
      (''congestion_surcharge'', DoubleType), (''airport_fee'', DoubleType)]"

definition exampleWorld :: "int World" where
  "exampleWorld =
     \<lparr>engine = (\<lambda>from to v. v), session = None,
      landing = Some [(''yellow_2023_04.parquet'', Some yellow_2023_04)], raw = None,
      countJob = None, clearOutput = None, writeJob = None\<rparr>"

definition exampleSession :: "int SparkSession" where
  "exampleSession = getOrCreate exampleWorld"

definition df_2022_12 :: "int DataFrame" where
  "df_2022_12 =
     \<lparr>sparkSession = exampleSession, schema = fst yellow_2022_12, rows = snd yellow_2022_12\<rparr>"

definition df_2023_04 :: "int DataFrame" where
  "df_2023_04 =
     \<lparr>sparkSession = exampleSession, schema = fst yellow_2023_04, rows = snd yellow_2023_04\<rparr>"

definition std_2022_12 :: "int DataFrame" where
  "std_2022_12 =
     \<lparr>sparkSession = exampleSession, schema = standardSchema, rows = snd yellow_2022_12\<rparr>"

definition std_2023_04 :: "int DataFrame" where
  "std_2023_04 =
     \<lparr>sparkSession = exampleSession, schema = standardSchema, rows = snd yellow_2023_04\<rparr>"

text \<open>A landing directory whose only file has no \<^verbatim>\<open>VendorID\<close> column.\<close>

definition brokenWorld :: "int World" where
  "brokenWorld =
     \<lparr>engine = (\<lambda>from to v. v), session = None,
      landing = Some [(''yellow_2024_01.parquet'',
                       Some ([(''passenger_count'', LongType)], [[1]]))],
      raw = None, countJob = None, clearOutput = None, writeJob = None\<rparr>"

definition df_2024_01 :: "int DataFrame" where
  "df_2024_01 =
     \<lparr>sparkSession = exampleSession, schema = [(''passenger_count'', LongType)], rows = [[1]]\<rparr>"

text \<open>
  The example world with an earlier output in place and a write job that fails, and with
  a file that the engine's listing hides.
\<close>

definition failedWriteWorld :: "int World" where
  "failedWriteWorld =
     exampleWorld\<lparr>raw := Some yellow_2022_12,
                   writeJob := Some (JobFailed ''No space left on device'')\<rparr>"

definition hiddenFileWorld :: "int World" where
  "hiddenFileWorld =
     exampleWorld\<lparr>landing := Some [(''_yellow_2023_04.parquet'', Some yellow_2023_04)]\<rparr>"

text \<open>A machine on which the landing directory does not exist.\<close>

definition missingDirWorld :: "int World" where
  "missingDirWorld = exampleWorld\<lparr>landing := None\<rparr>"

text \<open>A landing directory with no parquet file.\<close>

definition emptyWorld :: "int World" where
  "emptyWorld =
     \<lparr>engine = (\<lambda>from to v. v), session = None,
      landing = Some [(''README.md'', None)], raw = None,
      countJob = None, clearOutput = None, writeJob = None\<rparr>"




section \<open>Properties of the engine operations\<close>

lemma DataFrame_eqI:
  fixes a b :: "'v DataFrame"
  shows "sparkSession a = sparkSession b \<Longrightarrow> schema a = schema b \<Longrightarrow> rows a = rows b \<Longrightarrow> a = b"
  by (rule DataFrame.equality) simp_all

lemma resolver_key: "resolver spark a b \<longleftrightarrow> key spark a = key spark b"
  by (simp add: resolver_def key_def)

lemma length_attributes [simp]: "length (attributes df) = length (schema df)"
  by (simp add: attributes_def)

lemma nth_attributes:
  "i < length (schema df) \<Longrightarrow> attributes df ! i = (fst (schema df ! i), snd (schema df ! i), \<lambda>r. r ! i)"
  by (simp add: attributes_def nth_enumerate_eq split_beta)

lemma map_field_attributes [simp]: "map field (attributes df) = schema df"
  by (rule nth_equalityI) (simp_all add: nth_attributes field_def)

lemma select_simps [simp]:
  "sparkSession (select df es) = sparkSession df"
  "schema (select df es) = map field es"
  "rows (select df es) = map (\<lambda>r. map (\<lambda>a. snd (snd a) r) es) (rows df)"
  by (simp_all add: select_def field_def split_beta)

lemma field_recast: "field (recast spark c to a) = (if resolver spark (fst a) c then (c, to) else field a)"
  by (cases a) (simp add: recast_def field_def)

lemma field_rename: "field (rename spark e new a) = (if resolver spark (fst a) e then (new, snd (field a)) else field a)"
  by (cases a) (simp add: rename_def field_def)

lemma lifted_recast: "lifted (recast spark c to)"
  unfolding lifted_def
  apply (rule exI[of _ "\<lambda>(n, t). if resolver spark n c then (c, to) else (n, t)"])
  apply (rule exI[of _ "\<lambda>(n, t) v. if resolver spark n c then castValue spark t to v else v"])
  apply (auto simp: recast_def)
  done

lemma lifted_rename: "lifted (rename spark e new)"
  unfolding lifted_def
  apply (rule exI[of _ "\<lambda>(n, t). if resolver spark n e then (new, t) else (n, t)"])
  apply (rule exI[of _ "\<lambda>(n, t) v. v"])
  apply (auto simp: rename_def)
  done

lemma select_select_lifted:
  assumes "lifted h"
  shows "select (select df es) (map h (attributes (select df es))) = select df (map h es)"
proof -
  from assms obtain a b where h: "\<And>n t f. h (n, t, f) = (fst (a (n, t)), snd (a (n, t)), \<lambda>r. b (n, t) (f r))"
    unfolding lifted_def by blast
  let ?d = "select df es"
  have len: "length (attributes ?d) = length es" by simp
  have fld: "\<And>x. field (h x) = a (field x)"
    by (simp add: field_def h split_beta) (metis h fst_conv prod.collapse snd_conv)
  have sch: "map field (map h (attributes ?d)) = map field (map h es)"
  proof -
    have c: "field \<circ> h = a \<circ> field" by (rule ext) (simp add: fld)
    have "map field (map h (attributes ?d)) = map a (map field (attributes ?d))"
      unfolding map_map c ..
    also have "\<dots> = map a (map field es)" by (simp only: map_field_attributes select_simps)
    also have "\<dots> = map field (map h es)" unfolding map_map c ..
    finally show ?thesis .
  qed
  have row: "map (\<lambda>x. snd (snd x) (map (\<lambda>x. snd (snd x) r) es)) (map h (attributes ?d))
           = map (\<lambda>x. snd (snd x) r) (map h es)" for r
  proof (rule nth_equalityI)
    show "length (map (\<lambda>x. snd (snd x) (map (\<lambda>x. snd (snd x) r) es)) (map h (attributes ?d))) =
      length (map (\<lambda>x. snd (snd x) r) (map h es))" by simp
  next
    fix i assume "i < length (map (\<lambda>x. snd (snd x) (map (\<lambda>x. snd (snd x) r) es)) (map h (attributes ?d)))"
    then have i: "i < length es" by simp
    obtain n t f where e: "es ! i = (n, t, f)" by (cases "es ! i") auto
    have at: "attributes ?d ! i = (n, t, \<lambda>r. r ! i)"
      using i e by (simp add: nth_attributes field_def)
    show "map (\<lambda>x. snd (snd x) (map (\<lambda>x. snd (snd x) r) es)) (map h (attributes ?d)) ! i =
         map (\<lambda>x. snd (snd x) r) (map h es) ! i"
      using i e at by (simp add: h)
  qed
  show ?thesis
  proof (rule DataFrame_eqI)
    show "sparkSession (select ?d (map h (attributes ?d))) = sparkSession (select df (map h es))" by simp
    show "schema (select ?d (map h (attributes ?d))) = schema (select df (map h es))"
      using sch by (simp only: select_simps)
    show "rows (select ?d (map h (attributes ?d))) = rows (select df (map h es))"
      using row by (simp only: select_simps map_map comp_def)
  qed
qed

lemma map_field_filter:
  "map field (filter (\<lambda>(n, t, f). P n) as) = filter (\<lambda>(n, t). P n) (map field as)"
  by (induction as) (auto simp: field_def)

lemma columns_attributes: "columns df = map fst (attributes df)"
proof -
  have "map (fst \<circ> field) (attributes df) = map fst (attributes df)"
    by (simp add: field_def comp_def)
  then have "map fst (map field (attributes df)) = map fst (attributes df)"
    by (simp only: map_map)
  then show ?thesis by (simp only: map_field_attributes columns_def)
qed

lemma list_ex_columns:
  "list_ex P (columns df) \<longleftrightarrow> filter (\<lambda>(n, t, f). P n) (attributes df) \<noteq> []"
  unfolding columns_attributes list_ex_iff filter_empty_conv by force

lemma map_recast_unique:
  assumes "filter (\<lambda>(n, t, f). resolver spark n c) as = [(n0, t0, f0)]"
  shows "map (\<lambda>(n, t, f). if resolver spark n c
            then (c, to, \<lambda>r. castValue spark t0 to (f0 r)) else (n, t, f)) as
         = map (recast spark c to) as"
proof (rule map_cong[OF refl])
  fix x assume x: "x \<in> set as"
  obtain n t f where xe: "x = (n, t, f)" by (cases x) auto
  show "(case x of (n, t, f) \<Rightarrow> if resolver spark n c
            then (c, to, \<lambda>r. castValue spark t0 to (f0 r)) else (n, t, f)) = recast spark c to x"
  proof (cases "resolver spark n c")
    case True
    with x xe have "x \<in> set (filter (\<lambda>(n, t, f). resolver spark n c) as)" by simp
    with assms have "x = (n0, t0, f0)" by simp
    with True xe show ?thesis by (simp add: recast_def)
  next
    case False
    with xe show ?thesis by (simp add: recast_def)
  qed
qed

lemma withColumn_cast_col:
  "withColumn df c (cast (col c) to)
     = map_sum id (select df) (castStep (sparkSession df) c to (attributes df))"
proof -
  let ?S = "sparkSession df"
  let ?F = "filter (\<lambda>(n, t, f). resolver ?S n c) (attributes df)"
  have mf: "filter (\<lambda>(n, t). resolver ?S n c) (map field (attributes df)) = map field ?F"
    by (rule map_field_filter[symmetric])
  show ?thesis
  proof (cases ?F)
    case Nil
    then show ?thesis
      unfolding withColumn_def castStep_def mf by simp
  next
    case (Cons a as)
    obtain n t f where a: "a = (n, t, f)" by (cases a) auto
    show ?thesis
    proof (cases as)
      case Nil
      with Cons a have F: "?F = [(n, t, f)]" by simp
      have ex: "list_ex (\<lambda>n. resolver ?S n c) (columns df)"
        unfolding list_ex_columns using F by simp
      show ?thesis
        unfolding withColumn_def castStep_def mf
        using F ex map_recast_unique[OF F, of to]
        by (simp add: field_def)
    next
      case (Cons b bs)
      with \<open>?F = a # as\<close> a have F: "?F = (n, t, f) # b # bs" by simp
      show ?thesis
        unfolding withColumn_def castStep_def mf
        using F by (simp add: field_def split_beta)
    qed
  qed
qed

lemma castStep_cong:
  "map field es = map field es' \<Longrightarrow>
   map_sum id (\<lambda>x. ()) (castStep spark c to es) = map_sum id (\<lambda>x. ()) (castStep spark c to es')"
  unfolding castStep_def by (auto split: list.splits)

lemma withColumn_select:
  "withColumn (select df es) c (cast (col c) to)
     = map_sum id (select df) (castStep (sparkSession df) c to es)"
proof -
  let ?d = "select df es"
  let ?S = "sparkSession df"
  have f: "map field (attributes ?d) = map field es" by simp
  have "withColumn ?d c (cast (col c) to) = map_sum id (select ?d) (castStep ?S c to (attributes ?d))"
    using withColumn_cast_col[of ?d c to] by simp
  also have "\<dots> = map_sum id (select df) (castStep ?S c to es)"
    unfolding castStep_def f
    by (auto split: list.splits simp: select_select_lifted[OF lifted_recast])
  finally show ?thesis .
qed

lemma map_rename_none:
  "\<not> list_ex (\<lambda>n. resolver spark n e) (map fst es) \<Longrightarrow> map (rename spark e new) es = es"
  by (induction es) (auto simp: rename_def)

lemma withColumnRenamed_select:
  "withColumnRenamed (select df es) e new = select df (map (rename (sparkSession df) e new) es)"
proof -
  let ?d = "select df es"
  let ?S = "sparkSession df"
  have rn: "(\<lambda>(n, t, f). if resolver ?S n e then (new, t, f) else (n, t, f)) = rename ?S e new"
    by (simp add: rename_def)
  have cols: "columns ?d = map fst es"
    by (simp add: columns_def field_def comp_def)
  show ?thesis
  proof (cases "list_ex (\<lambda>n. resolver ?S n e) (columns ?d)")
    case True
    then show ?thesis
      unfolding withColumnRenamed_def
      by (simp add: rn select_select_lifted[OF lifted_rename])
  next
    case False
    then show ?thesis
      unfolding withColumnRenamed_def
      using map_rename_none[of ?S e es new] cols by simp
  qed
qed

lemma thenDo_map_sum:
  "thenDo (map_sum id g r) k = thenDo r (\<lambda>x. k (g x))"
  by (cases r) (simp_all add: thenDo_def)

lemma map_sum_thenDo:
  "map_sum id g (thenDo r k) = thenDo r (\<lambda>x. map_sum id g (k x))"
  by (cases r) (simp_all add: thenDo_def)

lemma standardize_schema_attrs:
  "standardize_schema df
     = map_sum id (select df) (standardizeAttrs (sparkSession df) (attributes df))"
  unfolding standardize_schema_def standardizeAttrs_def
  apply (subst withColumn_cast_col[of df])
  apply (simp only: thenDo_map_sum map_sum_thenDo withColumn_select withColumnRenamed_select
        map_sum.simps id_apply)
  done

lemma standardize_schema_select:
  "standardize_schema (select df es)
     = map_sum id (select df) (standardizeAttrs (sparkSession df) es)"
  unfolding standardize_schema_def standardizeAttrs_def
  by (simp only: thenDo_map_sum map_sum_thenDo withColumn_select withColumnRenamed_select
        map_sum.simps id_apply)

lemma key_names:
  "key spark ''VendorID'' \<noteq> key spark ''passenger_count''"
  "key spark ''VendorID'' \<noteq> key spark ''RatecodeID''"
  "key spark ''VendorID'' \<noteq> key spark ''PULocationID''"
  "key spark ''VendorID'' \<noteq> key spark ''DOLocationID''"
  "key spark ''VendorID'' \<noteq> key spark ''Airport_fee''"
  "key spark ''VendorID'' \<noteq> key spark ''airport_fee''"
  "key spark ''passenger_count'' \<noteq> key spark ''RatecodeID''"
  "key spark ''passenger_count'' \<noteq> key spark ''PULocationID''"
  "key spark ''passenger_count'' \<noteq> key spark ''DOLocationID''"
  "key spark ''passenger_count'' \<noteq> key spark ''Airport_fee''"
  "key spark ''passenger_count'' \<noteq> key spark ''airport_fee''"
  "key spark ''RatecodeID'' \<noteq> key spark ''PULocationID''"
  "key spark ''RatecodeID'' \<noteq> key spark ''DOLocationID''"
  "key spark ''RatecodeID'' \<noteq> key spark ''Airport_fee''"
  "key spark ''RatecodeID'' \<noteq> key spark ''airport_fee''"
  "key spark ''PULocationID'' \<noteq> key spark ''DOLocationID''"
  "key spark ''PULocationID'' \<noteq> key spark ''Airport_fee''"
  "key spark ''PULocationID'' \<noteq> key spark ''airport_fee''"
  "key spark ''DOLocationID'' \<noteq> key spark ''Airport_fee''"
  "key spark ''DOLocationID'' \<noteq> key spark ''airport_fee''"
  by (simp_all add: key_def toLowerCase_def)

lemma castStep_Inr_iff:
  "castStep spark c to es = Inr es' \<longleftrightarrow>
     castable spark c to (map field es) \<and> es' = map (recast spark c to) es"
  unfolding castStep_def castable_def
  by (auto split: list.splits)

lemma castStep_Inl_iff:
  "(\<exists>e. castStep spark c to es = Inl e) \<longleftrightarrow> \<not> castable spark c to (map field es)"
  unfolding castStep_def castable_def
  by (auto split: list.splits)

lemma recast_other:
  assumes "key spark c \<noteq> key spark c'"
  shows "resolver spark (fst (field (recast spark c to a))) c' \<longleftrightarrow> resolver spark (fst (field a)) c'"
    and "resolver spark (fst (field a)) c' \<Longrightarrow> field (recast spark c to a) = field a"
  using assms by (cases a; auto simp: recast_def field_def resolver_key)+

lemma filter_recast_other:
  assumes "key spark c \<noteq> key spark c'"
  shows "filter (\<lambda>(n, t). resolver spark n c') (map field (map (recast spark c to) es))
       = filter (\<lambda>(n, t). resolver spark n c') (map field es)"
proof (induction es)
  case Nil
  show ?case by simp
next
  case (Cons a es)
  show ?case
    using Cons recast_other[OF assms, where a=a and to=to]
    by (auto simp: split_beta simp del: map_map)
qed

lemma castable_recast_other:
  "key spark c \<noteq> key spark c' \<Longrightarrow>
   castable spark c' to' (map field (map (recast spark c to) es)) = castable spark c' to' (map field es)"
  unfolding castable_def by (simp add: filter_recast_other del: map_map)

lemma thenDo_Inr_iff:
  "thenDo r k = Inr y \<longleftrightarrow> (\<exists>x. r = Inr x \<and> k x = Inr y)"
  by (cases r) (simp_all add: thenDo_def)

lemma stdAttr_compose:
  "rename spark ''Airport_fee'' ''airport_fee''
     (recast spark ''DOLocationID'' IntegerType
       (recast spark ''PULocationID'' IntegerType
         (recast spark ''RatecodeID'' DoubleType
           (recast spark ''passenger_count'' DoubleType
             (recast spark ''VendorID'' IntegerType a))))) = stdAttr spark a"
proof -
  obtain n t f where a: "a = (n, t, f)" by (cases a) auto
  note kn = key_names[of spark] key_names[of spark, symmetric]
  show ?thesis
    unfolding a stdAttr_def stdField_def stdValue_def recast_def rename_def
    by (simp add: resolver_key kn)
qed

lemma standardizeAttrs_Inr_iff:
  "standardizeAttrs spark es = Inr es' \<longleftrightarrow>
     castable spark ''VendorID'' IntegerType (map field es) \<and>
     castable spark ''passenger_count'' DoubleType (map field es) \<and>
     castable spark ''RatecodeID'' DoubleType (map field es) \<and>
     castable spark ''PULocationID'' IntegerType (map field es) \<and>
     castable spark ''DOLocationID'' IntegerType (map field es) \<and>
     es' = map (stdAttr spark) es"
proof -
  note kn = key_names[of spark] key_names[of spark, symmetric]
  have comp: "map (rename spark ''Airport_fee'' ''airport_fee'')
     (map (recast spark ''DOLocationID'' IntegerType)
       (map (recast spark ''PULocationID'' IntegerType)
         (map (recast spark ''RatecodeID'' DoubleType)
           (map (recast spark ''passenger_count'' DoubleType)
             (map (recast spark ''VendorID'' IntegerType) es))))) = map (stdAttr spark) es"
    by (simp add: stdAttr_compose)
  show ?thesis
    unfolding standardizeAttrs_def thenDo_Inr_iff castStep_Inr_iff
    using comp
    by (auto simp: castable_recast_other kn simp del: map_map)
qed

lemma map_sum_Inr_iff: "map_sum id g r = Inr y \<longleftrightarrow> (\<exists>x. r = Inr x \<and> y = g x)"
  by (cases r) auto


lemma standardize_schema_Inr_iff:
  "standardize_schema df = Inr d' \<longleftrightarrow>
     (\<forall>(c, to) \<in> set coercions. castable (sparkSession df) c to (schema df)) \<and>
     d' = select df (map (stdAttr (sparkSession df)) (attributes df))"
  unfolding standardize_schema_attrs map_sum_Inr_iff standardizeAttrs_Inr_iff
  by (auto simp: coercions_def)

lemma field_stdAttr: "field (stdAttr spark a) = stdField spark (field a)"
  by (cases a) (simp add: stdAttr_def field_def)

lemma value_stdAttr: "snd (snd (stdAttr spark a)) r = stdValue spark (field a) (snd (snd a) r)"
  by (cases a) (simp add: stdAttr_def field_def)

lemma schema_standardized:
  "schema (select df (map (stdAttr spark) (attributes df))) = map (stdField spark) (schema df)"
proof -
  have c: "field \<circ> stdAttr spark = stdField spark \<circ> field"
    by (rule ext) (simp add: field_stdAttr)
  have "map field (map (stdAttr spark) (attributes df)) = map (stdField spark) (map field (attributes df))"
    unfolding map_map c ..
  then show ?thesis by (simp only: select_simps map_field_attributes)
qed

lemma rows_standardized:
  "rows (select df (map (stdAttr spark) (attributes df)))
     = map (\<lambda>r. map (\<lambda>(i, fld). stdValue spark fld (r ! i)) (enumerate 0 (schema df))) (rows df)"
  by (simp add: value_stdAttr attributes_def split_beta field_def comp_def)

lemma castValue_same [simp]: "castValue spark t t v = v"
  by (simp add: castValue_def)

lemma stdAttr_idem: "stdAttr spark (stdAttr spark a) = stdAttr spark a"
proof -
  obtain n t f where a: "a = (n, t, f)" by (cases a) auto
  note kn = key_names[of spark] key_names[of spark, symmetric]
  show ?thesis
    unfolding a stdAttr_def stdField_def stdValue_def
    by (simp add: resolver_key kn)
qed

lemma stdField_resolver:
  assumes "(c, to) \<in> set coercions"
  shows "resolver spark (fst (stdField spark f)) c \<longleftrightarrow> resolver spark (fst f) c"
    and "resolver spark (fst f) c \<Longrightarrow> stdField spark f = (c, to)"
proof -
  obtain n t where f: "f = (n, t)" by (cases f) auto
  note kn = key_names[of spark] key_names[of spark, symmetric]
  from assms have c: "(c, to) = (''VendorID'', IntegerType) \<or> (c, to) = (''passenger_count'', DoubleType) \<or>
     (c, to) = (''RatecodeID'', DoubleType) \<or> (c, to) = (''PULocationID'', IntegerType) \<or> (c, to) = (''DOLocationID'', IntegerType)"
    by (simp add: coercions_def)
  show "resolver spark (fst (stdField spark f)) c \<longleftrightarrow> resolver spark (fst f) c"
    using c unfolding f stdField_def by (auto simp: resolver_key kn)
  show "resolver spark (fst f) c \<Longrightarrow> stdField spark f = (c, to)"
    using c unfolding f stdField_def by (auto simp: resolver_key kn)
qed

lemma filter_stdField:
  assumes "(c, to) \<in> set coercions"
  shows "filter (\<lambda>(n, t). resolver spark n c) (map (stdField spark) fs)
       = map (\<lambda>_. (c, to)) (filter (\<lambda>(n, t). resolver spark n c) fs)"
proof (induction fs)
  case Nil
  show ?case by simp
next
  case (Cons f fs)
  show ?case
    using Cons stdField_resolver[OF assms, of spark f]
    by (auto simp: split_beta)
qed

lemma canCast_coercions: "(c, to) \<in> set coercions \<Longrightarrow> canCast to to"
  by (simp add: canCast_def)

lemma castable_stdField:
  assumes "(c, to) \<in> set coercions" and "castable spark c to fs"
  shows "castable spark c to (map (stdField spark) fs)"
  using assms(2) unfolding castable_def filter_stdField[OF assms(1)]
  by (auto split: list.splits simp: canCast_def)

lemma standardize_schema_idem:
  assumes "standardize_schema df = Inr d'"
  shows "standardize_schema d' = Inr d'"
proof -
  let ?S = "sparkSession df"
  let ?es = "map (stdAttr ?S) (attributes df)"
  from assms have ok: "\<forall>(c, to) \<in> set coercions. castable ?S c to (schema df)"
    and d': "d' = select df ?es"
    unfolding standardize_schema_Inr_iff by auto
  have f: "map field ?es = map (stdField ?S) (schema df)"
    using schema_standardized[of df ?S] by (simp only: select_simps)
  have ok': "castable ?S c to (map field ?es)" if "(c, to) \<in> set coercions" for c to
    unfolding f using castable_stdField[OF that, of ?S "schema df"] ok that by blast
  have idem: "map (stdAttr ?S) ?es = ?es"
    by (simp add: stdAttr_idem)
  have "standardizeAttrs ?S ?es = Inr ?es"
    unfolding standardizeAttrs_Inr_iff idem
    using ok' by (simp add: coercions_def)
  then show ?thesis
    unfolding d' standardize_schema_select by simp
qed

lemma pipeline_cases:
  "(fst (pipeline w) = None \<and> session (snd (pipeline w)) = None)
   \<or> (fst (pipeline w) \<noteq> None \<and> session (snd (pipeline w)) = Some (getOrCreate w))"
  unfolding pipeline_def Let_def
  by (auto split: sum.splits option.splits)

lemma parquet_files_session [simp]: "parquet_files (w\<lparr>session := s\<rparr>) = parquet_files w"
  by (simp add: parquet_files_def)

lemma readAll_session [simp]: "readAll spark (w\<lparr>session := s\<rparr>) = readAll spark w"
  by (simp add: readAll_def)

lemma pipeline_empty:
  assumes "parquet_files w = Inr []"
  shows "thenDo (readAll (getOrCreate w) w) (accumulate None) = Inr None"
    and "fst (pipeline w) = Some (AttributeError ''printSchema'')"
    and "raw (snd (pipeline w)) = raw w"
proof -
  have ra: "readAll (getOrCreate w) w = Inr []"
    using assms by (simp add: readAll_def thenDo_def)
  show "thenDo (readAll (getOrCreate w) w) (accumulate None) = Inr None"
    unfolding ra by (simp add: thenDo_def)
  show "fst (pipeline w) = Some (AttributeError ''printSchema'')"
    unfolding pipeline_def Let_def readAll_session ra by simp
  show "raw (snd (pipeline w)) = raw w"
    unfolding pipeline_def Let_def readAll_session ra by simp
qed

section \<open>The example tables, evaluated\<close>

lemma lower_names:
  "toLowerCase ''VendorID'' = ''vendorid''"
  "toLowerCase ''tpep_pickup_datetime'' = ''tpep_pickup_datetime''"
  "toLowerCase ''tpep_dropoff_datetime'' = ''tpep_dropoff_datetime''"
  "toLowerCase ''passenger_count'' = ''passenger_count''"
  "toLowerCase ''trip_distance'' = ''trip_distance''"
  "toLowerCase ''RatecodeID'' = ''ratecodeid''"
  "toLowerCase ''store_and_fwd_flag'' = ''store_and_fwd_flag''"
  "toLowerCase ''PULocationID'' = ''pulocationid''"
  "toLowerCase ''DOLocationID'' = ''dolocationid''"
  "toLowerCase ''payment_type'' = ''payment_type''"
  "toLowerCase ''fare_amount'' = ''fare_amount''"
  "toLowerCase ''extra'' = ''extra''"
  "toLowerCase ''mta_tax'' = ''mta_tax''"
  "toLowerCase ''tip_amount'' = ''tip_amount''"
  "toLowerCase ''tolls_amount'' = ''tolls_amount''"
  "toLowerCase ''improvement_surcharge'' = ''improvement_surcharge''"
  "toLowerCase ''total_amount'' = ''total_amount''"
  "toLowerCase ''congestion_surcharge'' = ''congestion_surcharge''"
  "toLowerCase ''airport_fee'' = ''airport_fee''"
  "toLowerCase ''Airport_fee'' = ''airport_fee''"
  by (simp_all add: toLowerCase_def)

lemma exampleSession_eq:
  "exampleSession
     = \<lparr>appName = ''MAST30034 Project 1'', conf = builderOptions, convert = (\<lambda>from to v. v)\<rparr>"
  by (simp add: exampleSession_def getOrCreate_def exampleWorld_def)

lemma caseSensitive_example [simp]: "\<not> caseSensitive exampleSession"
  by (simp add: caseSensitive_def exampleSession_eq builderOptions_def)

lemma resolver_example:
  "resolver exampleSession a b \<longleftrightarrow> toLowerCase a = toLowerCase b"
  by (simp add: resolver_def)

lemma castValue_example: "castValue exampleSession from to v = v"
  by (simp add: castValue_def exampleSession_eq)

lemma standardize_2023_04: "standardize_schema df_2023_04 = Inr std_2023_04"
  unfolding standardize_schema_Inr_iff
proof (intro conjI)
  show "\<forall>(c, to)\<in>set coercions. castable (sparkSession df_2023_04) c to (schema df_2023_04)"
    by (simp add: coercions_def castable_def df_2023_04_def yellow_2023_04_def
        resolver_example lower_names canCast_def numeric_def)
  show "std_2023_04 = select df_2023_04 (map (stdAttr (sparkSession df_2023_04)) (attributes df_2023_04))"
  proof (rule DataFrame_eqI)
    show "sparkSession std_2023_04
        = sparkSession (select df_2023_04 (map (stdAttr (sparkSession df_2023_04)) (attributes df_2023_04)))"
      by (simp add: df_2023_04_def std_2023_04_def)
    show "schema std_2023_04
        = schema (select df_2023_04 (map (stdAttr (sparkSession df_2023_04)) (attributes df_2023_04)))"
      unfolding schema_standardized
      by (simp add: df_2023_04_def std_2023_04_def yellow_2023_04_def
          standardSchema_def stdField_def resolver_example lower_names)
    show "rows std_2023_04
        = rows (select df_2023_04 (map (stdAttr (sparkSession df_2023_04)) (attributes df_2023_04)))"
      unfolding rows_standardized
      by (simp add: df_2023_04_def std_2023_04_def yellow_2023_04_def
          stdValue_def resolver_example lower_names castValue_example enumerate_eq_zip upt_rec)
  qed
qed

lemma standardize_2022_12: "standardize_schema df_2022_12 = Inr std_2022_12"
  unfolding standardize_schema_Inr_iff
proof (intro conjI)
  show "\<forall>(c, to)\<in>set coercions. castable (sparkSession df_2022_12) c to (schema df_2022_12)"
    by (simp add: coercions_def castable_def df_2022_12_def yellow_2022_12_def
        resolver_example lower_names canCast_def numeric_def)
  show "std_2022_12 = select df_2022_12 (map (stdAttr (sparkSession df_2022_12)) (attributes df_2022_12))"
  proof (rule DataFrame_eqI)
    show "sparkSession std_2022_12
        = sparkSession (select df_2022_12 (map (stdAttr (sparkSession df_2022_12)) (attributes df_2022_12)))"
      by (simp add: df_2022_12_def std_2022_12_def)
    show "schema std_2022_12
        = schema (select df_2022_12 (map (stdAttr (sparkSession df_2022_12)) (attributes df_2022_12)))"
      unfolding schema_standardized
      by (simp add: df_2022_12_def std_2022_12_def yellow_2022_12_def
          standardSchema_def stdField_def resolver_example lower_names)
    show "rows std_2022_12
        = rows (select df_2022_12 (map (stdAttr (sparkSession df_2022_12)) (attributes df_2022_12)))"
      unfolding rows_standardized
      by (simp add: df_2022_12_def std_2022_12_def yellow_2022_12_def
          stdValue_def resolver_example lower_names castValue_example enumerate_eq_zip upt_rec)
  qed
qed

lemma names_2023_04_distinct:
  "checkColumnNameDuplication exampleSession (map fst (fst yellow_2023_04))"
  by (simp add: checkColumnNameDuplication_def yellow_2023_04_def lower_names)

lemma names_2022_12_distinct:
  "checkColumnNameDuplication exampleSession (map fst (fst yellow_2022_12))"
  by (simp add: checkColumnNameDuplication_def yellow_2022_12_def lower_names)

lemma read_2023_04:
  "read_parquet exampleSession (''yellow_2023_04.parquet'', Some yellow_2023_04) = Inr df_2023_04"
  using names_2023_04_distinct
  by (simp add: read_parquet_def shouldFilterOutPathName_def startswith_def endswith_def
      df_2023_04_def split_beta)

lemma readAll_exampleWorld: "readAll exampleSession exampleWorld = Inr [df_2023_04]"
  by (simp add: readAll_def parquet_files_def exampleWorld_def endswith_def thenDo_def
      read_2023_04)

lemma accumulate_2023_04: "accumulate None [df_2023_04] = Inr (Some std_2023_04)"
  by (simp add: standardize_2023_04)

lemma pipeline_exampleWorld:
  "pipeline exampleWorld
     = (None, exampleWorld\<lparr>session := None, raw := Some (standardSchema, snd yellow_2023_04)\<rparr>)"
  unfolding pipeline_def Let_def exampleSession_def[symmetric] readAll_session
    readAll_exampleWorld
  by (simp add: accumulate_2023_04 std_2023_04_def exampleWorld_def del: accumulate.simps)

lemma getOrCreate_failedWriteWorld: "getOrCreate failedWriteWorld = exampleSession"
  by (simp add: failedWriteWorld_def exampleSession_def getOrCreate_def exampleWorld_def)

lemma readAll_failedWriteWorld: "readAll exampleSession failedWriteWorld = Inr [df_2023_04]"
  by (simp add: readAll_def parquet_files_def failedWriteWorld_def exampleWorld_def
      endswith_def thenDo_def read_2023_04)

lemma pipeline_failedWriteWorld:
  "pipeline failedWriteWorld
     = (Some (JobFailed ''No space left on device''),
        failedWriteWorld\<lparr>session := Some exampleSession, raw := None\<rparr>)"
  unfolding pipeline_def Let_def getOrCreate_failedWriteWorld readAll_session
    readAll_failedWriteWorld
  by (simp add: accumulate_2023_04 failedWriteWorld_def exampleWorld_def del: accumulate.simps)

lemma getOrCreate_hiddenFileWorld: "getOrCreate hiddenFileWorld = exampleSession"
  by (simp add: hiddenFileWorld_def exampleSession_def getOrCreate_def exampleWorld_def)

lemma pipeline_hiddenFileWorld:
  "pipeline hiddenFileWorld
     = (Some (UNABLE_TO_INFER_SCHEMA ''_yellow_2023_04.parquet''),
        hiddenFileWorld\<lparr>session := Some exampleSession\<rparr>)"
  unfolding pipeline_def Let_def getOrCreate_hiddenFileWorld readAll_session
  by (simp add: readAll_def thenDo_def hiddenFileWorld_def parquet_files_def endswith_def
      read_parquet_def shouldFilterOutPathName_def startswith_def exampleWorld_def)

lemma getOrCreate_missingDirWorld: "getOrCreate missingDirWorld = exampleSession"
  by (simp add: missingDirWorld_def exampleSession_def getOrCreate_def exampleWorld_def)

lemma pipeline_missingDirWorld:
  "pipeline missingDirWorld
     = (Some (FileNotFoundError ''data_path''),
        missingDirWorld\<lparr>session := Some exampleSession\<rparr>)"
  unfolding pipeline_def Let_def getOrCreate_missingDirWorld readAll_session
  by (simp add: readAll_def thenDo_def missingDirWorld_def parquet_files_def)

lemma getOrCreate_brokenWorld: "getOrCreate brokenWorld = exampleSession"
  by (simp add: brokenWorld_def exampleSession_def getOrCreate_def exampleWorld_def)

lemma read_2024_01:
  "read_parquet exampleSession
     (''yellow_2024_01.parquet'', Some ([(''passenger_count'', LongType)], [[1]])) = Inr df_2024_01"
  by (simp add: read_parquet_def shouldFilterOutPathName_def startswith_def endswith_def
      checkColumnNameDuplication_def df_2024_01_def)

lemma standardize_2024_01:
  "standardize_schema df_2024_01 = Inl (UNRESOLVED_COLUMN ''VendorID'')"
  by (simp add: standardize_schema_def thenDo_def withColumn_def attributes_def df_2024_01_def
      resolver_example lower_names)

lemma readAll_brokenWorld: "readAll exampleSession brokenWorld = Inr [df_2024_01]"
  by (simp add: readAll_def parquet_files_def brokenWorld_def endswith_def thenDo_def
      read_2024_01)

lemma pipeline_brokenWorld:
  "pipeline brokenWorld
     = (Some (UNRESOLVED_COLUMN ''VendorID''),
        brokenWorld\<lparr>session := Some (getOrCreate brokenWorld)\<rparr>)"
proof -
  have acc: "accumulate None [df_2024_01] = Inl (UNRESOLVED_COLUMN ''VendorID'')"
    by (simp add: standardize_2024_01)
  show ?thesis
    unfolding pipeline_def Let_def getOrCreate_brokenWorld readAll_session readAll_brokenWorld
    by (simp add: acc del: accumulate.simps)
qed

lemma parquet_files_emptyWorld: "parquet_files emptyWorld = Inr []"
  by (simp add: parquet_files_def emptyWorld_def endswith_def)

section \<open>Properties of the standardisation\<close>

lemma checkColumnNameDuplication_key:
  "checkColumnNameDuplication spark names \<longleftrightarrow> distinct (map (key spark) names)"
proof -
  have "map (key spark) names = (if caseSensitive spark then names else map toLowerCase names)"
    by (induction names) (auto simp: key_def)
  then show ?thesis by (simp add: checkColumnNameDuplication_def)
qed

lemma filter_key_unique:
  assumes "distinct (map k xs)" and "x \<in> set xs"
  shows "filter (\<lambda>y. k y = k x) xs = [x]"
  using assms
proof (induction xs)
  case Nil
  then show ?case by simp
next
  case (Cons a xs)
  show ?case
  proof (cases "a = x")
    case True
    have "k x \<notin> k ` set xs"
      using Cons.prems(1) True by simp
    then have "\<forall>y \<in> set xs. k y \<noteq> k x"
      by (metis imageI)
    then have "filter (\<lambda>y. k y = k x) xs = []"
      by (simp add: filter_empty_conv)
    with True show ?thesis by simp
  next
    case False
    with Cons.prems have x: "x \<in> set xs" and d: "distinct (map k xs)" and "k a \<notin> k ` set xs"
      by auto
    then have "k a \<noteq> k x" by auto
    with Cons.IH[OF d x] show ?thesis by simp
  qed
qed


lemma distinct_keys_fields:
  "checkColumnNameDuplication (sparkSession df) (columns df) \<longleftrightarrow>
     distinct (map (\<lambda>f. key (sparkSession df) (fst f)) (schema df))"
  by (simp add: checkColumnNameDuplication_key columns_def comp_def)





lemma standardized_shape:
  assumes "standardize_schema T = Inr T'"
  shows "sparkSession T' = sparkSession T"
    and "schema T' = map (stdField (sparkSession T)) (schema T)"
    and "rows T' = map (\<lambda>r. map (\<lambda>(i, fld). stdValue (sparkSession T) fld (r ! i))
                                 (enumerate 0 (schema T))) (rows T)"
    and "count T' = count T"
proof -
  from assms have T': "T' = select T (map (stdAttr (sparkSession T)) (attributes T))"
    unfolding standardize_schema_Inr_iff by simp
  show "sparkSession T' = sparkSession T" unfolding T' by simp
  show "schema T' = map (stdField (sparkSession T)) (schema T)"
    unfolding T' by (rule schema_standardized)
  show r: "rows T' = map (\<lambda>r. map (\<lambda>(i, fld). stdValue (sparkSession T) fld (r ! i))
                                 (enumerate 0 (schema T))) (rows T)"
    unfolding T' by (rule rows_standardized)
  show "count T' = count T" unfolding count_def r by simp
qed

lemma standardized_cell:
  assumes "standardize_schema T = Inr T'" and "i < length (schema T)" and "j < count T"
  shows "rows T' ! j ! i = stdValue (sparkSession T) (schema T ! i) (rows T ! j ! i)"
  using assms(2,3) unfolding standardized_shape(3)[OF assms(1)] count_def
  by (simp add: nth_enumerate_eq)








lemma stdField_name_airport_fee:
  "fst (stdField spark (n, t)) = ''airport_fee'' \<longleftrightarrow> resolver spark n ''Airport_fee'' \<or> n = ''airport_fee''"
proof -
  note kn = key_names[of spark] key_names[of spark, symmetric]
  show ?thesis
    unfolding stdField_def using kn by (auto simp: resolver_key)
qed

lemma resolver_refl: "resolver spark a a"
  by (simp add: resolver_key)

lemma stdField_name_not_Airport_fee: "fst (stdField spark (n, t)) \<noteq> ''Airport_fee''"
  unfolding stdField_def using resolver_refl[of spark "''Airport_fee''"] by auto

lemma stdField_airport:
  assumes "n = ''Airport_fee'' \<or> n = ''airport_fee''"
  shows "stdField spark (n, t) = (''airport_fee'', t)" and "stdValue spark (n, t) v = v"
proof -
  note kn = key_names[of spark] key_names[of spark, symmetric]
  show "stdField spark (n, t) = (''airport_fee'', t)"
    using assms kn unfolding stdField_def by (auto simp: resolver_key)
  show "stdValue spark (n, t) v = v"
    using assms kn unfolding stdValue_def by (auto simp: resolver_key)
qed

lemma key_airport_fee:
  "caseSensitive spark \<or> key spark ''airport_fee'' = key spark ''Airport_fee''"
  by (simp add: key_def toLowerCase_def)

lemma one_column_of_two_spellings:
  assumes d: "distinct (map (\<lambda>f. k (fst f)) fs)"
    and x: "(a \<in> fst ` set fs) \<noteq> (b \<in> fst ` set fs)"
    and mode: "(\<forall>n. k n = n) \<or> k b = k a"
  shows "length (filter (\<lambda>f. k (fst f) = k a \<or> fst f = b) fs) = 1"
proof -
  let ?k = "\<lambda>f. k (fst f)"
  let ?P = "\<lambda>f. k (fst f) = k a \<or> fst f = b"
  from x have "a \<in> fst ` set fs \<or> b \<in> fst ` set fs"
    by blast
  then obtain f where f: "f \<in> set fs" and fn: "fst f = a \<or> fst f = b"
    by (metis imageE)
  have both: "\<not> (a \<in> fst ` set fs \<and> b \<in> fst ` set fs)"
    using x by blast
  have "filter ?P fs = filter (\<lambda>y. ?k y = ?k f) fs"
  proof (rule filter_cong[OF refl])
    fix y assume y: "y \<in> set fs"
    have yin: "fst y \<in> fst ` set fs" and fin: "fst f \<in> fst ` set fs"
      using y f by simp_all
    from mode show "?P y \<longleftrightarrow> ?k y = ?k f"
    proof
      assume id: "\<forall>n. k n = n"
      show ?thesis
      proof
        assume "?P y"
        then have "fst y = a \<or> fst y = b" using id by simp
        with fn both yin fin have "fst y = fst f" by metis
        then show "?k y = ?k f" by simp
      next
        assume "?k y = ?k f"
        then have "fst y = fst f" using id by simp
        with fn id show "?P y" by auto
      qed
    next
      assume e: "k b = k a"
      from fn e have kf: "?k f = k a" by metis
      show ?thesis
      proof
        assume "?P y"
        then have "?k y = k a" using e by metis
        with kf show "?k y = ?k f" by simp
      next
        assume "?k y = ?k f"
        with kf show "?P y" by simp
      qed
    qed
  qed
  also have "\<dots> = [f]"
    using filter_key_unique[where k = ?k and x = f and xs = fs] d f by simp
  finally show ?thesis by simp
qed

lemma one_airport_fee_column:
  assumes d: "distinct (map (\<lambda>f. key spark (fst f)) fs)"
    and x: "(''Airport_fee'' \<in> fst ` set fs) \<noteq> (''airport_fee'' \<in> fst ` set fs)"
  shows "length (filter (\<lambda>f. resolver spark (fst f) ''Airport_fee'' \<or> fst f = ''airport_fee'') fs) = 1"
proof -
  have mode: "(\<forall>n. key spark n = n) \<or> key spark ''airport_fee'' = key spark ''Airport_fee''"
    using key_airport_fee[of spark] by (auto simp: key_def)
  show ?thesis
    unfolding resolver_key
    by (rule one_column_of_two_spellings[OF d x mode])
qed

lemma stdField_name_airport_fee':
  "fst (stdField spark f) = ''airport_fee'' \<longleftrightarrow>
     resolver spark (fst f) ''Airport_fee'' \<or> fst f = ''airport_fee''"
  using stdField_name_airport_fee[of spark "fst f" "snd f"] by simp

lemma stdField_name_not_Airport_fee':
  "fst (stdField spark f) \<noteq> ''Airport_fee''" "''Airport_fee'' \<noteq> fst (stdField spark f)"
  using stdField_name_not_Airport_fee[of spark "fst f" "snd f"] by simp_all

lemma stdField_untouched:
  assumes "\<forall>c \<in> set (map fst coercions). \<not> resolver spark n c"
  shows "stdValue spark (n, t) v = v"
    and "\<not> resolver spark n ''Airport_fee'' \<Longrightarrow> stdField spark (n, t) = (n, t)"
    and "resolver spark n ''Airport_fee'' \<Longrightarrow> stdField spark (n, t) = (''airport_fee'', t)"
  using assms unfolding stdField_def stdValue_def coercions_def by auto

section \<open>Auxiliary facts for the claims\<close>

lemma distinct_key_eq:
  assumes "distinct (map k xs)" "a \<in> set xs" "b \<in> set xs" "k a = k b"
  shows "a = b"
  using assms by (meson distinct_map inj_onD)

lemma not_both_general:
  assumes "distinct (map k names)" "k a = k b" "a \<noteq> b"
  shows "\<not> (a \<in> set names \<and> b \<in> set names)"
  using distinct_key_eq[OF assms(1) _ _ assms(2)] assms(3) by blast

lemma not_both_spellings:
  assumes d: "checkColumnNameDuplication spark names"
    and cs: "caseSensitive spark \<longrightarrow> \<not> (''Airport_fee'' \<in> set names \<and> ''airport_fee'' \<in> set names)"
  shows "\<not> (''Airport_fee'' \<in> set names \<and> ''airport_fee'' \<in> set names)"
proof (cases "caseSensitive spark")
  case True
  from cs True show ?thesis by (rule mp)
next
  case False
  have e: "key spark ''Airport_fee'' = key spark ''airport_fee''"
    using False by (simp add: key_def toLowerCase_def)
  have ne: "''Airport_fee'' \<noteq> ''airport_fee''" by simp
  from d have dk: "distinct (map (key spark) names)"
    unfolding checkColumnNameDuplication_key .
  show ?thesis by (rule not_both_general[OF dk e ne])
qed

lemma airport_fee_one_spelling:
  assumes "standardize_schema T = Inr T'"
      and "checkColumnNameDuplication (sparkSession T) (columns T)"
      and "(''Airport_fee'' \<in> set (columns T)) \<noteq> (''airport_fee'' \<in> set (columns T))"
  shows "length (filter (\<lambda>n. n = ''airport_fee'') (columns T')) = 1
       \<and> ''Airport_fee'' \<notin> set (columns T')
       \<and> (\<forall>i < length (schema T).
            fst (schema T ! i) = ''Airport_fee'' \<or> fst (schema T ! i) = ''airport_fee'' \<longrightarrow>
              schema T' ! i = (''airport_fee'', snd (schema T ! i))
              \<and> (\<forall>j < count T. rows T' ! j ! i = rows T ! j ! i))"
proof -
  let ?S = "sparkSession T"
  note sh = standardized_shape[OF assms(1)]
  have cols: "columns T' = map (\<lambda>f. fst (stdField ?S f)) (schema T)"
    by (simp add: columns_def sh(2) comp_def)
  have "filter (\<lambda>n. n = ''airport_fee'') (columns T')
      = map (\<lambda>f. fst (stdField ?S f))
          (filter (\<lambda>f. resolver ?S (fst f) ''Airport_fee'' \<or> fst f = ''airport_fee'') (schema T))"
    unfolding cols filter_map comp_def by (simp add: stdField_name_airport_fee')
  moreover have "length (filter (\<lambda>f. resolver ?S (fst f) ''Airport_fee'' \<or> fst f = ''airport_fee'') (schema T)) = 1"
  proof -
    have d: "distinct (map (\<lambda>f. key ?S (fst f)) (schema T))"
      using assms(2) unfolding distinct_keys_fields .
    have x: "(''Airport_fee'' \<in> fst ` set (schema T)) \<noteq> (''airport_fee'' \<in> fst ` set (schema T))"
      using assms(3) by (simp add: columns_def)
    show ?thesis by (rule one_airport_fee_column[OF d x])
  qed
  ultimately have one: "length (filter (\<lambda>n. n = ''airport_fee'') (columns T')) = 1"
    by simp
  have none: "''Airport_fee'' \<notin> set (columns T')"
    unfolding cols by (simp add: image_iff stdField_name_not_Airport_fee')
  have inplace: "\<forall>i < length (schema T).
            fst (schema T ! i) = ''Airport_fee'' \<or> fst (schema T ! i) = ''airport_fee'' \<longrightarrow>
              schema T' ! i = (''airport_fee'', snd (schema T ! i))
              \<and> (\<forall>j < count T. rows T' ! j ! i = rows T ! j ! i)"
  proof (intro allI impI)
    fix i
    assume i: "i < length (schema T)"
      and n: "fst (schema T ! i) = ''Airport_fee'' \<or> fst (schema T ! i) = ''airport_fee''"
    obtain m t where f: "schema T ! i = (m, t)" by (cases "schema T ! i") auto
    from n f have m: "m = ''Airport_fee'' \<or> m = ''airport_fee''" by simp
    have a: "schema T' ! i = (''airport_fee'', t)"
      unfolding sh(2) using i f stdField_airport(1)[OF m] by simp
    have b: "\<forall>j < count T. rows T' ! j ! i = rows T ! j ! i"
    proof (intro allI impI)
      fix j assume "j < count T"
      from standardized_cell[OF assms(1) i this] f stdField_airport(2)[OF m]
      show "rows T' ! j ! i = rows T ! j ! i" by simp
    qed
    from a b f show "schema T' ! i = (''airport_fee'', snd (schema T ! i))
              \<and> (\<forall>j < count T. rows T' ! j ! i = rows T ! j ! i)" by simp
  qed
  show ?thesis by (intro conjI) (fact one, fact none, fact inplace)
qed

lemma distinct_2023_04: "checkColumnNameDuplication (sparkSession df_2023_04) (columns df_2023_04)"
  using names_2023_04_distinct by (simp add: df_2023_04_def columns_def)

lemma distinct_2022_12: "checkColumnNameDuplication (sparkSession df_2022_12) (columns df_2022_12)"
  using names_2022_12_distinct by (simp add: df_2022_12_def columns_def)









lemma read_parquet_no_duplicates:
  "read_parquet spark file = Inr df \<Longrightarrow>
     checkColumnNameDuplication (sparkSession df) (columns df)"
  by (auto simp: read_parquet_def columns_def split: prod.splits if_splits option.splits)

section \<open>The claims\<close>



text \<open>
  Claim C2. Let \<^verbatim>\<open>standardize_schema\<close> return on a table that has no two columns of the
  same name and has the airport-fee column under one of the spellings \<^verbatim>\<open>Airport_fee\<close>,
  \<^verbatim>\<open>airport_fee\<close> (a table of a case-sensitive session could hold both; the specification
  expects one spelling per table, and a table of the default session cannot hold both). Then
  the result has exactly one column named \<^verbatim>\<open>airport_fee\<close> and none named
  \<^verbatim>\<open>Airport_fee\<close>; the column stays at its position, keeps its type and keeps every value,
  so a column spelled \<^verbatim>\<open>Airport_fee\<close> is renamed and one spelled \<^verbatim>\<open>airport_fee\<close> is left
  as it is.
\<close>

theorem airport_fee_canonical:
  assumes "standardize_schema T = Inr T'"
      and "checkColumnNameDuplication (sparkSession T) (columns T)"
      and "''Airport_fee'' \<in> set (columns T) \<or> ''airport_fee'' \<in> set (columns T)"
      and "caseSensitive (sparkSession T) \<longrightarrow>
             \<not> (''Airport_fee'' \<in> set (columns T) \<and> ''airport_fee'' \<in> set (columns T))"
  shows "length (filter (\<lambda>n. n = ''airport_fee'') (columns T')) = 1
       \<and> ''Airport_fee'' \<notin> set (columns T')
       \<and> (\<forall>i < length (schema T).
            fst (schema T ! i) = ''Airport_fee'' \<or> fst (schema T ! i) = ''airport_fee'' \<longrightarrow>
              schema T' ! i = (''airport_fee'', snd (schema T ! i))
              \<and> (\<forall>j < count T. rows T' ! j ! i = rows T ! j ! i))"
proof -
  have nb: "\<not> (''Airport_fee'' \<in> set (columns T) \<and> ''airport_fee'' \<in> set (columns T))"
    by (rule not_both_spellings[OF assms(2,4)])
  have x: "(''Airport_fee'' \<in> set (columns T)) \<noteq> (''airport_fee'' \<in> set (columns T))"
  proof -
    define p where "p = (''Airport_fee'' \<in> set (columns T))"
    define q where "q = (''airport_fee'' \<in> set (columns T))"
    from assms(3) nb have "p \<or> q" "\<not> (p \<and> q)" unfolding p_def q_def by simp_all
    then have "p \<noteq> q" by blast
    then show ?thesis unfolding p_def q_def .
  qed
  show ?thesis by (rule airport_fee_one_spelling[OF assms(1,2) x])
qed

theorem airport_fee_canonical_witness:
  "length (filter (\<lambda>n. n = ''airport_fee'') (columns std_2023_04)) = 1
   \<and> ''Airport_fee'' \<notin> set (columns std_2023_04)
   \<and> schema std_2023_04 ! 18 = (''airport_fee'', DoubleType)
   \<and> rows std_2023_04 ! 1 ! 18 = rows df_2023_04 ! 1 ! 18"
proof -
  have p: "''Airport_fee'' \<in> set (columns df_2023_04) \<or> ''airport_fee'' \<in> set (columns df_2023_04)"
    by (simp add: columns_def df_2023_04_def yellow_2023_04_def)
  have q: "caseSensitive (sparkSession df_2023_04) \<longrightarrow>
             \<not> (''Airport_fee'' \<in> set (columns df_2023_04) \<and> ''airport_fee'' \<in> set (columns df_2023_04))"
    by (simp add: df_2023_04_def)
  have i: "18 < length (schema df_2023_04)" "fst (schema df_2023_04 ! 18) = ''Airport_fee''"
    "snd (schema df_2023_04 ! 18) = DoubleType" "1 < count df_2023_04"
    by (simp_all add: df_2023_04_def yellow_2023_04_def count_def)
  from airport_fee_canonical[OF standardize_2023_04 distinct_2023_04 p q] i
  show ?thesis by simp
qed

text \<open>
  Claim C3. Standardizing is idempotent: when \<^verbatim>\<open>standardize_schema\<close> returns a table,
  standardizing that table again returns the very same table: the same session, the same
  schema (column names and types, in the same order) and the same rows (every cell value).
  This holds for every input table, so in particular for those with the expected columns.
\<close>

theorem standardize_schema_idempotent:
  "standardize_schema T = Inr T' \<Longrightarrow> standardize_schema T' = Inr T'"
  by (rule standardize_schema_idem)

theorem standardize_schema_idempotent_witness:
  "standardize_schema df_2023_04 = Inr std_2023_04
   \<and> standardize_schema std_2023_04 = Inr std_2023_04"
  using standardize_schema_idempotent [OF standardize_2023_04] standardize_2023_04
  by simp




text \<open>
  Claim C8, as amended. The run releases the session exactly when it completes: after a run
  without error the session is stopped; after a run that an error ends, whichever cell
  raises it (the directory listing, a read, a cast, the union, the \<^verbatim>\<open>printSchema\<close>
  call, the count, the write), the session that the first cell returned is still the
  active one. The notebook
  calls \<^verbatim>\<open>spark.stop()\<close> in its last cell and has no error handler, so the claim as
  stated (release on every exit path) fails on each run that raises.
\<close>

theorem session_released_iff_run_completes:
  "(fst (pipeline w) = None \<longrightarrow> session (snd (pipeline w)) = None)
   \<and> (fst (pipeline w) \<noteq> None \<longrightarrow> session (snd (pipeline w)) = Some (getOrCreate w))"
  using pipeline_cases [of w] by auto

theorem session_released_iff_run_completes_witness:
  "fst (pipeline exampleWorld) = None
   \<and> session (snd (pipeline exampleWorld)) = None
   \<and> fst (pipeline brokenWorld) \<noteq> None
   \<and> session (snd (pipeline brokenWorld)) = Some (getOrCreate brokenWorld)
   \<and> fst (pipeline failedWriteWorld) \<noteq> None
   \<and> session (snd (pipeline failedWriteWorld)) = Some (getOrCreate failedWriteWorld)
   \<and> fst (pipeline hiddenFileWorld) \<noteq> None
   \<and> session (snd (pipeline hiddenFileWorld)) = Some (getOrCreate hiddenFileWorld)
   \<and> fst (pipeline missingDirWorld) \<noteq> None
   \<and> session (snd (pipeline missingDirWorld)) = Some (getOrCreate missingDirWorld)"
  using session_released_iff_run_completes [of exampleWorld]
    session_released_iff_run_completes [of brokenWorld]
    session_released_iff_run_completes [of failedWriteWorld]
    session_released_iff_run_completes [of hiddenFileWorld]
    session_released_iff_run_completes [of missingDirWorld]
  by (simp add: pipeline_exampleWorld pipeline_brokenWorld pipeline_failedWriteWorld
      pipeline_hiddenFileWorld pipeline_missingDirWorld)

text \<open>
  The run on a landing directory whose only file lacks the \<^verbatim>\<open>VendorID\<close> column: the
  first cast raises, the run ends there, and the session is still active.
\<close>

theorem session_not_released_on_error:
  "fst (pipeline brokenWorld) = Some (UNRESOLVED_COLUMN ''VendorID'')
   \<and> session (snd (pipeline brokenWorld)) \<noteq> None"
  by (simp add: pipeline_brokenWorld)

text \<open>
  Claim C9. With no parquet file in the landing directory (the list \<^verbatim>\<open>parquet_files\<close>
  is empty) the loop leaves the accumulator
  unset (\<open>None\<close>); the run then fails at the first use of the accumulator, the call
  \<^verbatim>\<open>sdf.printSchema()\<close>, with an \<^verbatim>\<open>AttributeError\<close>, and writes nothing: there is no
  empty combined table.
\<close>

theorem empty_file_list_fails:
  "parquet_files w = Inr [] \<Longrightarrow>
     thenDo (readAll (getOrCreate w) w) (accumulate None) = Inr None
     \<and> fst (pipeline w) = Some (AttributeError ''printSchema'')
     \<and> raw (snd (pipeline w)) = raw w"
  using pipeline_empty [of w] by simp

theorem empty_file_list_fails_witness:
  "parquet_files emptyWorld = Inr []
   \<and> thenDo (readAll (getOrCreate emptyWorld) emptyWorld) (accumulate None) = Inr None
   \<and> fst (pipeline emptyWorld) = Some (AttributeError ''printSchema'')
   \<and> raw (snd (pipeline emptyWorld)) = raw emptyWorld"
  using empty_file_list_fails [OF parquet_files_emptyWorld] parquet_files_emptyWorld
  by simp

text \<open>
  Claim C10. When \<^verbatim>\<open>standardize_schema\<close> returns, the result has as many rows and as many
  columns as the input, and column by column, at the same position: a column that one of the
  five names resolves to carries that name and the target type; a column that
  \<^verbatim>\<open>Airport_fee\<close> resolves to is named \<^verbatim>\<open>airport_fee\<close> and keeps its type; every other
  column keeps its name and its type; and every column other than the five coerced ones
  (the airport-fee column included) keeps every value.
\<close>

theorem standardize_schema_frame:
  assumes "standardize_schema T = Inr T'"
  shows "count T' = count T \<and> length (schema T') = length (schema T)
       \<and> (\<forall>i < length (schema T). \<forall>(c, to) \<in> set coercions.
             resolver (sparkSession T) (fst (schema T ! i)) c \<longrightarrow> schema T' ! i = (c, to))
       \<and> (\<forall>i < length (schema T).
             resolver (sparkSession T) (fst (schema T ! i)) ''Airport_fee'' \<longrightarrow>
               schema T' ! i = (''airport_fee'', snd (schema T ! i)))
       \<and> (\<forall>i < length (schema T).
             (\<forall>c \<in> set (map fst coercions @ [''Airport_fee'']).
                 \<not> resolver (sparkSession T) (fst (schema T ! i)) c) \<longrightarrow>
               schema T' ! i = schema T ! i)
       \<and> (\<forall>i < length (schema T). \<forall>j < count T.
             (\<forall>c \<in> set (map fst coercions). \<not> resolver (sparkSession T) (fst (schema T ! i)) c) \<longrightarrow>
               rows T' ! j ! i = rows T ! j ! i)"
proof -
  let ?S = "sparkSession T"
  note sh = standardized_shape[OF assms]
  note kn = key_names[of ?S] key_names[of ?S, symmetric]
  have len: "length (schema T') = length (schema T)" unfolding sh(2) by simp
  have cast: "\<forall>i < length (schema T). \<forall>(c, to) \<in> set coercions.
             resolver ?S (fst (schema T ! i)) c \<longrightarrow> schema T' ! i = (c, to)"
  proof (intro allI impI ballI)
    fix i x assume i: "i < length (schema T)" and x: "x \<in> set coercions"
    obtain c to where xe: "x = (c, to)" by (cases x) auto
    have "resolver ?S (fst (schema T ! i)) c \<longrightarrow> schema T' ! i = (c, to)"
    proof
      assume r: "resolver ?S (fst (schema T ! i)) c"
      from x xe have m: "(c, to) \<in> set coercions" by simp
      from stdField_resolver(2)[OF m r] i show "schema T' ! i = (c, to)"
        unfolding sh(2) by simp
    qed
    then show "case x of (c, to) \<Rightarrow>
        resolver ?S (fst (schema T ! i)) c \<longrightarrow> schema T' ! i = (c, to)"
      unfolding xe by simp
  qed
  have ren: "\<forall>i < length (schema T).
             resolver ?S (fst (schema T ! i)) ''Airport_fee'' \<longrightarrow>
               schema T' ! i = (''airport_fee'', snd (schema T ! i))"
  proof (intro allI impI)
    fix i assume i: "i < length (schema T)" and r: "resolver ?S (fst (schema T ! i)) ''Airport_fee''"
    obtain n t where f: "schema T ! i = (n, t)" by (cases "schema T ! i") auto
    from r f have rn: "resolver ?S n ''Airport_fee''" by simp
    then have "\<forall>c \<in> set (map fst coercions). \<not> resolver ?S n c"
      using kn by (simp add: coercions_def resolver_key)
    from stdField_untouched(3)[OF this rn] f i
    show "schema T' ! i = (''airport_fee'', snd (schema T ! i))" unfolding sh(2) by simp
  qed
  have same: "\<forall>i < length (schema T).
             (\<forall>c \<in> set (map fst coercions @ [''Airport_fee'']).
                 \<not> resolver ?S (fst (schema T ! i)) c) \<longrightarrow>
               schema T' ! i = schema T ! i"
  proof (intro allI impI)
    fix i assume i: "i < length (schema T)"
      and r: "\<forall>c \<in> set (map fst coercions @ [''Airport_fee'']). \<not> resolver ?S (fst (schema T ! i)) c"
    obtain n t where f: "schema T ! i = (n, t)" by (cases "schema T ! i") auto
    from r f have a: "\<forall>c \<in> set (map fst coercions). \<not> resolver ?S n c"
      and b: "\<not> resolver ?S n ''Airport_fee''"
      by simp_all
    from stdField_untouched(2)[OF a b] f i show "schema T' ! i = schema T ! i"
      unfolding sh(2) by simp
  qed
  have val: "\<forall>i < length (schema T). \<forall>j < count T.
             (\<forall>c \<in> set (map fst coercions). \<not> resolver ?S (fst (schema T ! i)) c) \<longrightarrow>
               rows T' ! j ! i = rows T ! j ! i"
  proof (intro allI impI)
    fix i j assume i: "i < length (schema T)" and j: "j < count T"
      and r: "\<forall>c \<in> set (map fst coercions). \<not> resolver ?S (fst (schema T ! i)) c"
    obtain n t where f: "schema T ! i = (n, t)" by (cases "schema T ! i") auto
    from r f have a: "\<forall>c \<in> set (map fst coercions). \<not> resolver ?S n c" by simp
    from standardized_cell[OF assms i j] stdField_untouched(1)[OF a] f
    show "rows T' ! j ! i = rows T ! j ! i" by simp
  qed
  show ?thesis
    by (intro conjI) (fact sh(4), fact len, fact cast, fact ren, fact same, fact val)
qed

theorem standardize_schema_frame_witness:
  "count std_2023_04 = count df_2023_04
   \<and> length (schema std_2023_04) = length (schema df_2023_04)
   \<and> schema std_2023_04 ! 0 = (''VendorID'', IntegerType)
   \<and> schema std_2023_04 ! 18 = (''airport_fee'', DoubleType)
   \<and> schema std_2023_04 ! 4 = schema df_2023_04 ! 4
   \<and> rows std_2023_04 ! 1 ! 4 = rows df_2023_04 ! 1 ! 4"
proof -
  note th = standardize_schema_frame[OF standardize_2023_04]
  have s: "sparkSession df_2023_04 = exampleSession" by (simp add: df_2023_04_def)
  have len: "0 < length (schema df_2023_04)" "18 < length (schema df_2023_04)"
    "4 < length (schema df_2023_04)" "1 < count df_2023_04"
    by (simp_all add: df_2023_04_def yellow_2023_04_def count_def)
  have n0: "fst (schema df_2023_04 ! 0) = ''VendorID''"
    and n18: "fst (schema df_2023_04 ! 18) = ''Airport_fee''"
      "snd (schema df_2023_04 ! 18) = DoubleType"
    and n4: "fst (schema df_2023_04 ! 4) = ''trip_distance''"
    by (simp_all add: df_2023_04_def yellow_2023_04_def)
  have v: "(''VendorID'', IntegerType) \<in> set coercions" by (simp add: coercions_def)
  have r0: "resolver exampleSession (fst (schema df_2023_04 ! 0)) ''VendorID''"
    unfolding n0 by (rule resolver_refl)
  have r18: "resolver exampleSession (fst (schema df_2023_04 ! 18)) ''Airport_fee''"
    unfolding n18 by (rule resolver_refl)
  have r4: "\<forall>c \<in> set (map fst coercions @ [''Airport_fee'']).
      \<not> resolver exampleSession (fst (schema df_2023_04 ! 4)) c"
    unfolding n4 by (simp add: coercions_def resolver_example lower_names)
  then have r4': "\<forall>c \<in> set (map fst coercions).
      \<not> resolver exampleSession (fst (schema df_2023_04 ! 4)) c"
    by simp
  from th have a: "count std_2023_04 = count df_2023_04" by (elim conjE)
  from th have b: "length (schema std_2023_04) = length (schema df_2023_04)" by (elim conjE)
  from th have "\<forall>i < length (schema df_2023_04). \<forall>(c, to) \<in> set coercions.
             resolver exampleSession (fst (schema df_2023_04 ! i)) c \<longrightarrow> schema std_2023_04 ! i = (c, to)"
    unfolding s by (elim conjE)
  from this[rule_format, OF len(1) v] r0
  have c: "schema std_2023_04 ! 0 = (''VendorID'', IntegerType)" by simp
  from th have "\<forall>i < length (schema df_2023_04).
             resolver exampleSession (fst (schema df_2023_04 ! i)) ''Airport_fee'' \<longrightarrow>
               schema std_2023_04 ! i = (''airport_fee'', snd (schema df_2023_04 ! i))"
    unfolding s by (elim conjE)
  from this[rule_format, OF len(2) r18]
  have d: "schema std_2023_04 ! 18 = (''airport_fee'', DoubleType)" unfolding n18 .
  from th have "\<forall>i < length (schema df_2023_04).
             (\<forall>c \<in> set (map fst coercions @ [''Airport_fee'']).
                 \<not> resolver exampleSession (fst (schema df_2023_04 ! i)) c) \<longrightarrow>
               schema std_2023_04 ! i = schema df_2023_04 ! i"
    unfolding s by (elim conjE)
  from this[rule_format, OF len(3) r4[rule_format]]
  have e: "schema std_2023_04 ! 4 = schema df_2023_04 ! 4" .
  from th have "\<forall>i < length (schema df_2023_04). \<forall>j < count df_2023_04.
             (\<forall>c \<in> set (map fst coercions). \<not> resolver exampleSession (fst (schema df_2023_04 ! i)) c) \<longrightarrow>
               rows std_2023_04 ! j ! i = rows df_2023_04 ! j ! i"
    unfolding s by (elim conjE)
  from this[rule_format, OF len(3) len(4) r4'[rule_format]]
  have f: "rows std_2023_04 ! 1 ! 4 = rows df_2023_04 ! 1 ! 4" .
  show ?thesis by (intro conjI) (fact a, fact b, fact c, fact d, fact e, fact f)
qed

end
